theory Spec2Isabelle
  imports Main
begin

section \<open>Python values used by \<open>app.py\<close>\<close>

text \<open>
  A Python \<open>str\<close> is a sequence of Unicode code points, and \<open>len\<close> counts code points.
  A HOL \<open>char\<close> is one byte, so the texts of the program are lists of code points; the
  literals of the source are ASCII and are written with \<open>str\<close>.
\<close>

type_synonym pystr = "nat list"

definition str :: "string \<Rightarrow> pystr" where
  "str cs = map of_char cs"

text \<open>\<open>str.isspace\<close> on one code point: the white space that \<open>str.strip()\<close> removes.\<close>

definition py_isspace :: "nat \<Rightarrow> bool" where
  "py_isspace c \<longleftrightarrow>
     (9 \<le> c \<and> c \<le> 13) \<or> (28 \<le> c \<and> c \<le> 32) \<or> c = 133 \<or> c = 160 \<or> c = 5760 \<or>
     (8192 \<le> c \<and> c \<le> 8202) \<or> c = 8232 \<or> c = 8233 \<or> c = 8239 \<or> c = 8287 \<or> c = 12288"

definition py_strip :: "pystr \<Rightarrow> pystr" where
  "py_strip s = rev (dropWhile py_isspace (rev (dropWhile py_isspace s)))"

text \<open>\<open>s.split(sep)\<close> for a separator of one code point; the result is never empty.\<close>

fun py_split :: "nat \<Rightarrow> pystr \<Rightarrow> pystr list" where
  "py_split sep [] = [[]]"
| "py_split sep (c # cs) =
     (if c = sep then [] # py_split sep cs
      else (case py_split sep cs of
              [] \<Rightarrow> [[c]]
            | p # ps \<Rightarrow> (c # p) # ps))"

text \<open>\<open>str(n)\<close> of a non-negative integer and of any integer, as the f-strings format them.\<close>

fun str_of_nat :: "nat \<Rightarrow> pystr" where
  "str_of_nat n = (if n < 10 then [48 + n] else str_of_nat (n div 10) @ [48 + n mod 10])"

declare str_of_nat.simps [simp del]

definition str_of_int :: "int \<Rightarrow> pystr" where
  "str_of_int z = (if z < 0 then 45 # str_of_nat (nat (- z)) else str_of_nat (nat z))"

text \<open>\<open>xs[:n]\<close>: a negative bound counts from the end of the list.\<close>

definition py_slice_to :: "'a list \<Rightarrow> int \<Rightarrow> 'a list" where
  "py_slice_to xs n = (if 0 \<le> n then take (nat n) xs else take (nat (int (length xs) + n)) xs)"

text \<open>Truthiness of a \<open>str\<close>: every string but the empty one.\<close>

definition truthy :: "pystr \<Rightarrow> bool" where
  "truthy s \<longleftrightarrow> s \<noteq> []"

subsection \<open>Exceptions and parsed JSON\<close>

text \<open>
  The exceptions the sequencer can meet: \<open>requests.exceptions.Timeout\<close>, any other exception
  raised by \<open>requests.post\<close>, the decoding error of \<open>response.json()\<close>, and the errors of
  indexing and of \<open>.strip()\<close> on a value of the wrong shape.
\<close>

datatype exn = Timeout | TransportError | JSONDecodeError | TypeError | KeyError | IndexError
  | AttributeError

text \<open>
  What \<open>response.json()\<close> returns: \<open>None\<close>, a \<open>bool\<close>, an \<open>int\<close>, a \<open>float\<close> (as
  mantissa and exponent; the code never looks into a number), a \<open>str\<close>, a \<open>list\<close>, or a
  \<open>dict\<close> with string keys, given by its items (the keys of a parsed \<open>dict\<close> are
  distinct; a lookup takes the first item with the key).
\<close>

datatype json = JNull | JBool bool | JInt int | JFloat int int | JStr pystr
  | JArr "json list" | JObj "(pystr \<times> json) list"

text \<open>\<open>sub in s\<close> on strings: \<open>sub\<close> occurs in \<open>s\<close> as a contiguous run.\<close>

fun py_substring :: "pystr \<Rightarrow> pystr \<Rightarrow> bool" where
  "py_substring sub [] = (sub = [])"
| "py_substring sub (c # cs) = (take (length sub) (c # cs) = sub \<or> py_substring sub cs)"

text \<open>\<open>key in data\<close> for a string \<open>key\<close>.\<close>

fun py_in :: "pystr \<Rightarrow> json \<Rightarrow> exn + bool" where
  "py_in key (JObj items) = Inr (key \<in> set (map fst items))"
| "py_in key (JArr xs) = Inr (JStr key \<in> set xs)"
| "py_in key (JStr s) = Inr (py_substring key s)"
| "py_in key _ = Inl TypeError"

text \<open>\<open>v[key]\<close> for a string \<open>key\<close>, and \<open>v[0]\<close>.\<close>

fun py_getitem :: "json \<Rightarrow> pystr \<Rightarrow> exn + json" where
  "py_getitem (JObj items) key = (case map_of items key of None \<Rightarrow> Inl KeyError | Some v \<Rightarrow> Inr v)"
| "py_getitem _ key = Inl TypeError"

fun py_getitem0 :: "json \<Rightarrow> exn + json" where
  "py_getitem0 (JArr xs) = (case xs of [] \<Rightarrow> Inl IndexError | x # _ \<Rightarrow> Inr x)"
| "py_getitem0 (JStr s) = (case s of [] \<Rightarrow> Inl IndexError | c # _ \<Rightarrow> Inr (JStr [c]))"
| "py_getitem0 (JObj items) = Inl KeyError"
| "py_getitem0 _ = Inl TypeError"

text \<open>Sequencing of steps that may raise.\<close>

definition and_then :: "exn + 'a \<Rightarrow> ('a \<Rightarrow> exn + 'b) \<Rightarrow> exn + 'b" where
  "and_then r f = (case r of Inl e \<Rightarrow> Inl e | Inr v \<Rightarrow> f v)"

text \<open>\<open>data["choices"][0]["message"]["content"]\<close>.\<close>

definition choices_content :: "json \<Rightarrow> exn + json" where
  "choices_content data =
     and_then (py_getitem data (str ''choices'')) (\<lambda>choices.
     and_then (py_getitem0 choices) (\<lambda>choice.
     and_then (py_getitem choice (str ''message'')) (\<lambda>message.
     py_getitem message (str ''content''))))"

section \<open>The fallback sequencer\<close>

text \<open>The fixed priority list \<open>FREE_MODELS\<close>.\<close>

definition FREE_MODELS :: "pystr list" where
  "FREE_MODELS = map str
     [''mistralai/mistral-small-3.2-24b-instruct:free'',
      ''meta-llama/llama-3-8b-instruct:free'',
      ''google/gemma-7b-it:free'',
      ''nousresearch/nous-hermes-2-mixtral-8x7b-dpo:free'',
      ''google/gemma-2b-it:free'',
      ''meta-llama/llama-2-13b-chat:free'',
      ''microsoft/wizardlm-2-8x22b:free'',
      ''undi95/toppy-m-7b:free'']"

subsection \<open>Requests, responses, effects\<close>

text \<open>
  The body and the timeout of one \<open>requests.post\<close>; the URL and the headers are the same
  for every request. The sampling temperature 0.7 is carried in tenths.
\<close>

record request =
  req_model :: pystr
  req_prompt :: pystr
  req_max_tokens :: nat
  req_temperature_tenths :: nat
  req_timeout :: nat

text \<open>A response: its status code and what \<open>response.json()\<close> does on it.\<close>

record response =
  status_code :: int
  json_result :: "exn + json"

text \<open>The network answers a request with a response, or \<open>requests.post\<close> raises.\<close>

type_synonym network = "request \<Rightarrow> exn + response"

text \<open>What the calls to \<open>st.write\<close>, \<open>st.success\<close>, \<open>st.warning\<close> and the like show.\<close>

datatype ui_msg =
    Trying pystr
  | SuccessWith pystr
  | ReturnedEmpty pystr
  | Failed pystr pystr
  | TimedOut pystr
  | ErrorOf pystr exn
  | FillBothFields
  | AdaptedHumor pystr
  | SpeakButton pystr
  | ModelUsedInfo pystr
  | SavedToHistory
  | SaveFailed exn
  | AllModelsFailed
  | AttemptHistory
  | HistoryLine pystr
  | WhatToDoNow

text \<open>The observable effects, in the order in which they happen.\<close>

datatype event = Post request | Sleep nat | Ui ui_msg

text \<open>The local list \<open>attempts\<close> and the effects so far.\<close>

record seq_state =
  attempts :: "pystr list"
  trace :: "event list"

definition emit :: "event \<Rightarrow> seq_state \<Rightarrow> seq_state" where
  "emit ev s = s\<lparr>trace := trace s @ [ev]\<rparr>"

definition log_append :: "pystr \<Rightarrow> seq_state \<Rightarrow> seq_state" where
  "log_append line s = s\<lparr>attempts := attempts s @ [line]\<rparr>"

text \<open>A UI call guarded by \<open>if max_attempts > 1\<close>.\<close>

definition say_if_many :: "int \<Rightarrow> ui_msg \<Rightarrow> seq_state \<Rightarrow> seq_state" where
  "say_if_many max_attempts m s = (if max_attempts > 1 then emit (Ui m) s else s)"

subsection \<open>The pieces of \<open>smart_translate_humor\<close>\<close>

definition newline :: nat where
  "newline = 10"

definition make_prompt :: "pystr \<Rightarrow> pystr \<Rightarrow> pystr" where
  "make_prompt input_text target_culture =
     str ''Translate or adapt the following joke or phrase into humor suitable for ''
     @ target_culture @ str '' culture. ''
     @ str ''Maintain the spirit of the joke but make it funny and understandable to that culture.''
     @ [newline, newline]
     @ str ''Input: '' @ input_text @ [newline, newline] @ str ''Translated Humor:''"

definition make_body :: "pystr \<Rightarrow> pystr \<Rightarrow> request" where
  "make_body model prompt =
     \<lparr>req_model = model, req_prompt = prompt, req_max_tokens = 500,
      req_temperature_tenths = 7, req_timeout = 30\<rparr>"

text \<open>\<open>model.split('/')[-1]\<close>; \<open>py_split\<close> never returns the empty list.\<close>

definition model_name_of :: "pystr \<Rightarrow> pystr" where
  "model_name_of model = last (py_split 47 model)"

text \<open>The three lines the loop appends to \<open>attempts\<close>.\<close>

definition attempt_line :: "nat \<Rightarrow> pystr \<Rightarrow> pystr" where
  "attempt_line i model_name = str ''Attempt '' @ str_of_nat (i + 1) @ str '': '' @ model_name"

definition timeout_line :: "nat \<Rightarrow> pystr \<Rightarrow> pystr" where
  "timeout_line i model_name = attempt_line i model_name @ str '' - Timeout''"

definition error_line :: "nat \<Rightarrow> pystr \<Rightarrow> pystr" where
  "error_line i model_name = attempt_line i model_name @ str '' - Error''"

text \<open>\<open>error_msg\<close> of the branch for a status other than 200.\<close>

definition error_msg :: "int \<Rightarrow> pystr" where
  "error_msg status =
     (if status = 429 then str ''Rate limited''
      else if status = 503 then str ''Service overloaded''
      else str ''HTTP '' @ str_of_int status)"

text \<open>
  What one pass through the \<open>try\<close> block ends in: an exception, falling through to the
  end of the block, or \<open>return translated_text, model, attempts\<close>.
\<close>

datatype flow = Raised exn | FellThrough | Returned pystr pystr

text \<open>
  The branch \<open>if response.status_code == 200\<close>, lines 143 to 153. A value without
  \<open>.strip()\<close> raises \<open>AttributeError\<close>.
\<close>

definition on_status_200 ::
  "int \<Rightarrow> pystr \<Rightarrow> pystr \<Rightarrow> response \<Rightarrow> seq_state \<Rightarrow> flow \<times> seq_state" where
  "on_status_200 max_attempts model model_name resp s =
     (case json_result resp of
        Inl e \<Rightarrow> (Raised e, s)
      | Inr data \<Rightarrow>
          (case py_in (str ''choices'') data of
             Inl e \<Rightarrow> (Raised e, s)
           | Inr has_choices \<Rightarrow>
               if has_choices then
                 (case choices_content data of
                    Inl e \<Rightarrow> (Raised e, s)
                  | Inr translated_text \<Rightarrow>
                      (case translated_text of
                         JStr t \<Rightarrow>
                           if length (py_strip t) > 10
                           then (Returned t model, say_if_many max_attempts (SuccessWith model_name) s)
                           else (FellThrough, emit (Ui (ReturnedEmpty model_name)) s)
                       | _ \<Rightarrow> (Raised AttributeError, s)))
               else (FellThrough, s)))"

text \<open>The \<open>else\<close> branch, lines 156 to 163.\<close>

definition on_other_status :: "int \<Rightarrow> pystr \<Rightarrow> response \<Rightarrow> seq_state \<Rightarrow> flow \<times> seq_state" where
  "on_other_status max_attempts model_name resp s =
     (FellThrough, say_if_many max_attempts (Failed model_name (error_msg (status_code resp))) s)"

text \<open>Lines 142 to 163: the \<open>if\<close> on the status code.\<close>

definition handle_response ::
  "int \<Rightarrow> pystr \<Rightarrow> pystr \<Rightarrow> response \<Rightarrow> seq_state \<Rightarrow> flow \<times> seq_state" where
  "handle_response max_attempts model model_name resp s =
     (if status_code resp = 200 then on_status_200 max_attempts model model_name resp s
      else on_other_status max_attempts model_name resp s)"

text \<open>
  Lines 166 and 167: the pause at the end of the \<open>try\<close> block. Only a pass that falls
  through the \<open>if\<close> reaches it: a \<open>return\<close> and an exception leave the block before.
\<close>

definition pause :: "int \<Rightarrow> nat \<Rightarrow> seq_state \<Rightarrow> seq_state" where
  "pause max_attempts i s = (if int i < max_attempts - 1 then emit (Sleep 2) s else s)"

definition then_pause :: "int \<Rightarrow> nat \<Rightarrow> flow \<times> seq_state \<Rightarrow> flow \<times> seq_state" where
  "then_pause max_attempts i r =
     (case fst r of
        FellThrough \<Rightarrow> (FellThrough, pause max_attempts i (snd r))
      | _ \<Rightarrow> r)"

text \<open>The \<open>try\<close> block, lines 121 to 167.\<close>

definition try_block ::
  "int \<Rightarrow> network \<Rightarrow> pystr \<Rightarrow> nat \<Rightarrow> pystr \<Rightarrow> seq_state \<Rightarrow> flow \<times> seq_state" where
  "try_block max_attempts net prompt i model s0 =
     (let model_name = model_name_of model;
          s1 = log_append (attempt_line i model_name) s0;
          s2 = say_if_many max_attempts (Trying model_name) s1;
          body = make_body model prompt;
          s3 = emit (Post body) s2
      in case net body of
           Inl e \<Rightarrow> (Raised e, s3)
         | Inr resp \<Rightarrow>
             then_pause max_attempts i (handle_response max_attempts model model_name resp s3))"

text \<open>The two \<open>except\<close> clauses, lines 169 to 176.\<close>

definition except_clauses :: "int \<Rightarrow> nat \<Rightarrow> pystr \<Rightarrow> exn \<Rightarrow> seq_state \<Rightarrow> seq_state" where
  "except_clauses max_attempts i model e s =
     (let model_name = model_name_of model
      in if e = Timeout
         then log_append (timeout_line i model_name) (say_if_many max_attempts (TimedOut model_name) s)
         else log_append (error_line i model_name) (say_if_many max_attempts (ErrorOf model_name e) s))"

text \<open>
  The \<open>for\<close> loop over \<open>enumerate(FREE_MODELS[:max_attempts])\<close>, and line 179 when the
  list is used up.
\<close>

fun attempt_loop ::
  "int \<Rightarrow> network \<Rightarrow> pystr \<Rightarrow> (nat \<times> pystr) list \<Rightarrow> seq_state
     \<Rightarrow> (pystr option \<times> pystr option) \<times> seq_state" where
  "attempt_loop max_attempts net prompt [] s = ((None, None), s)"
| "attempt_loop max_attempts net prompt ((i, model) # rest) s =
     (case try_block max_attempts net prompt i model s of
        (Returned t m, s') \<Rightarrow> ((Some t, Some m), s')
      | (FellThrough, s') \<Rightarrow> attempt_loop max_attempts net prompt rest s'
      | (Raised e, s') \<Rightarrow>
          attempt_loop max_attempts net prompt rest (except_clauses max_attempts i model e s'))"

text \<open>The function with its effects, and the triple it returns.\<close>

definition run_smart_translate_humor ::
  "network \<Rightarrow> pystr \<Rightarrow> pystr \<Rightarrow> int \<Rightarrow> (pystr option \<times> pystr option) \<times> seq_state" where
  "run_smart_translate_humor net input_text target_culture max_attempts =
     attempt_loop max_attempts net (make_prompt input_text target_culture)
       (enumerate 0 (py_slice_to FREE_MODELS max_attempts)) \<lparr>attempts = [], trace = []\<rparr>"

definition smart_translate_humor ::
  "network \<Rightarrow> pystr \<Rightarrow> pystr \<Rightarrow> int \<Rightarrow> pystr option \<times> pystr option \<times> pystr list" where
  "smart_translate_humor net input_text target_culture max_attempts =
     (case run_smart_translate_humor net input_text target_culture max_attempts of
        ((translated_text, model_used), s) \<Rightarrow> (translated_text, model_used, attempts s))"

definition effects_of_call :: "network \<Rightarrow> pystr \<Rightarrow> pystr \<Rightarrow> int \<Rightarrow> event list" where
  "effects_of_call net input_text target_culture max_attempts =
     trace (snd (run_smart_translate_humor net input_text target_culture max_attempts))"

section \<open>The caller: saving and the "Translate Humor" button\<close>

text \<open>A row of the table \<open>humor_translations\<close>, as \<open>save_translation_to_db\<close> builds it.\<close>

record translation_record =
  rec_user_email :: pystr
  original_text :: pystr
  rec_target_culture :: pystr
  translated_text :: pystr
  model_used :: pystr

text \<open>
  The part of the world the button handler touches: whether the session holds a Supabase
  client, the session's \<open>user_email\<close> and \<open>last_translation\<close>, the rows inserted so far, and
  the effects so far.
\<close>

record app_state =
  supabase_client :: bool
  user_email :: "pystr option"
  last_translation :: "(pystr \<times> pystr \<times> pystr \<times> pystr option) option"
  db_rows :: "translation_record list"
  shown :: "event list"

text \<open>The store accepts an insert (\<open>None\<close>) or the call raises.\<close>

type_synonym store = "translation_record \<Rightarrow> exn option"

definition display :: "ui_msg \<Rightarrow> app_state \<Rightarrow> app_state" where
  "display m w = w\<lparr>shown := shown w @ [Ui m]\<rparr>"

text \<open>
  \<open>save_translation_to_db\<close>, lines 67 to 83. Reading \<open>st.session_state["user_email"]\<close>
  raises \<open>KeyError\<close> when the key is missing; every exception ends in \<open>st.error\<close>.
\<close>

definition save_translation_to_db ::
  "store \<Rightarrow> pystr \<Rightarrow> pystr \<Rightarrow> pystr \<Rightarrow> pystr \<Rightarrow> app_state \<Rightarrow> app_state" where
  "save_translation_to_db insert_row input_text target_culture translated model w =
     (if supabase_client w then
        (case user_email w of
           None \<Rightarrow> display (SaveFailed KeyError) w
         | Some email \<Rightarrow>
             (let data = \<lparr>rec_user_email = email, original_text = input_text,
                          rec_target_culture = target_culture, translated_text = translated,
                          model_used = model\<rparr>
              in case insert_row data of
                   Some e \<Rightarrow> display (SaveFailed e) w
                 | None \<Rightarrow> w\<lparr>db_rows := db_rows w @ [data]\<rparr>))
      else w)"

text \<open>The branch \<open>if translated_text\<close>, lines 271 to 325.\<close>

definition show_result ::
  "store \<Rightarrow> pystr \<Rightarrow> pystr \<Rightarrow> bool \<Rightarrow> bool \<Rightarrow> pystr \<Rightarrow> pystr option \<Rightarrow> app_state \<Rightarrow> app_state" where
  "show_result insert_row input_text target_culture save_translation show_debug t mu w =
     (let w1 = display (SpeakButton t) (display (AdaptedHumor t) w);
          w2 = (case mu of
                  Some m \<Rightarrow> if show_debug \<and> truthy m
                            then display (ModelUsedInfo (model_name_of m)) w1 else w1
                | None \<Rightarrow> w1);
          w3 = (case mu of
                  Some m \<Rightarrow> if save_translation \<and> truthy m
                            then display SavedToHistory
                                   (save_translation_to_db insert_row input_text target_culture t m w2)
                            else w2
                | None \<Rightarrow> w2)
      in w3\<lparr>last_translation := Some (input_text, target_culture, t, mu)\<rparr>)"

text \<open>The \<open>else\<close> branch, lines 328 to 341.\<close>

definition show_failure :: "pystr list \<Rightarrow> app_state \<Rightarrow> app_state" where
  "show_failure log w =
     display WhatToDoNow
       (fold (\<lambda>attempt. display (HistoryLine attempt)) log
          (display AttemptHistory (display AllModelsFailed w)))"

text \<open>The body of \<open>if st.button("Translate Humor ...")\<close>, lines 261 to 341.\<close>

definition on_translate_click ::
  "network \<Rightarrow> store \<Rightarrow> pystr \<Rightarrow> pystr \<Rightarrow> int \<Rightarrow> bool \<Rightarrow> bool \<Rightarrow> app_state \<Rightarrow> app_state" where
  "on_translate_click net insert_row input_text target_culture max_attempts save_translation
       show_debug w =
     (if \<not> truthy input_text \<or> \<not> truthy target_culture then display FillBothFields w
      else
        (case run_smart_translate_humor net input_text target_culture max_attempts of
           ((tt, mu), s) \<Rightarrow>
             (let w1 = w\<lparr>shown := shown w @ trace s\<rparr>
              in case tt of
                   Some t \<Rightarrow>
                     if truthy t
                     then show_result insert_row input_text target_culture save_translation
                            show_debug t mu w1
                     else show_failure (attempts s) w1
                 | None \<Rightarrow> show_failure (attempts s) w1)))"

section \<open>Reading the effects\<close>

text \<open>The models contacted, in contact order, and the pauses taken.\<close>

fun contacted :: "event list \<Rightarrow> pystr list" where
  "contacted [] = []"
| "contacted (Post r # evs) = req_model r # contacted evs"
| "contacted (_ # evs) = contacted evs"

fun sleeps :: "event list \<Rightarrow> nat list" where
  "sleeps [] = []"
| "sleeps (Sleep d # evs) = d # sleeps evs"
| "sleeps (_ # evs) = sleeps evs"

section \<open>Notions used to state the properties\<close>

text \<open>\<open>FREE_MODELS[:max_attempts]\<close>, the list the loop runs over.\<close>

definition models_tried :: "int \<Rightarrow> pystr list" where
  "models_tried max_attempts = py_slice_to FREE_MODELS max_attempts"

text \<open>What the network answers to the request of the \<open>j\<close>-th pass of the loop.\<close>

definition reply_of :: "network \<Rightarrow> pystr \<Rightarrow> pystr \<Rightarrow> int \<Rightarrow> nat \<Rightarrow> exn + response" where
  "reply_of net input_text target_culture max_attempts j =
     net (make_body (models_tried max_attempts ! j) (make_prompt input_text target_culture))"

text \<open>
  How the \<open>try\<close> block ends for a model. It depends neither on the state, nor on the
  index, nor on the budget (\<open>try_block_fst\<close> below).
\<close>

definition attempt_flow :: "network \<Rightarrow> pystr \<Rightarrow> pystr \<Rightarrow> flow" where
  "attempt_flow net prompt model =
     fst (try_block 1 net prompt 0 model \<lparr>attempts = [], trace = []\<rparr>)"

definition raised :: "flow \<Rightarrow> bool" where
  "raised f = (case f of Raised e \<Rightarrow> True | _ \<Rightarrow> False)"

text \<open>
  The lines one pass of the loop appends to \<open>attempts\<close>: the line of line 122, and the
  line of the \<open>except\<close> clause when the \<open>try\<close> block raised.
\<close>

definition entries_of :: "network \<Rightarrow> pystr \<Rightarrow> nat \<times> pystr \<Rightarrow> pystr list" where
  "entries_of net prompt im =
     (case im of (i, model) \<Rightarrow>
        (case attempt_flow net prompt model of
           Raised e \<Rightarrow> [attempt_line i (model_name_of model),
                        if e = Timeout then timeout_line i (model_name_of model)
                        else error_line i (model_name_of model)]
         | _ \<Rightarrow> [attempt_line i (model_name_of model)]))"

text \<open>
  The acceptance rule in the words of the specification, to be compared with the code:
  the generated content is the string in the field \<open>choices[0].message.content\<close> of the
  body; a reply is accepted when the status is 200, the body parses and holds generated
  content, and the content is longer than 10 characters after trimming.
\<close>

definition generated_content :: "json \<Rightarrow> pystr option" where
  "generated_content data =
     (case choices_content data of Inr (JStr t) \<Rightarrow> Some t | _ \<Rightarrow> None)"

definition spec_accepted_text :: "exn + response \<Rightarrow> pystr option" where
  "spec_accepted_text reply =
     (case reply of
        Inl e \<Rightarrow> None
      | Inr resp \<Rightarrow>
          if status_code resp = 200 then
            (case json_result resp of
               Inl e \<Rightarrow> None
             | Inr data \<Rightarrow>
                 (case generated_content data of
                    None \<Rightarrow> None
                  | Some t \<Rightarrow> if 10 < length (py_strip t) then Some t else None))
          else None)"

section \<open>Sample networks, stores and sessions\<close>

text \<open>A well-formed chat completion with the content \<open>t\<close>, and a reply without a JSON body.\<close>

definition chat_completion :: "pystr \<Rightarrow> response" where
  "chat_completion t =
     \<lparr>status_code = 200,
      json_result = Inr (JObj [(str ''choices'',
          JArr [JObj [(str ''message'', JObj [(str ''role'', JStr (str ''assistant'')),
                                              (str ''content'', JStr t)])]])])\<rparr>"

definition status_only :: "int \<Rightarrow> response" where
  "status_only code = \<lparr>status_code = code, json_result = Inl JSONDecodeError\<rparr>"

definition chicken_joke :: pystr where
  "chicken_joke = str ''Why did the chicken cross the road? To avoid HR.''"

text \<open>The first model is rate limited, every other model answers with the joke.\<close>

definition net_second_accepts :: network where
  "net_second_accepts r =
     (if req_model r = FREE_MODELS ! 0 then Inr (status_only 429)
      else Inr (chat_completion chicken_joke))"

definition net_always_timeout :: network where
  "net_always_timeout r = Inl Timeout"

definition net_timeout_then_ok :: network where
  "net_timeout_then_ok r =
     (if req_model r = FREE_MODELS ! 0 then Inl Timeout
      else Inr (chat_completion chicken_joke))"

definition net_rate_limited :: network where
  "net_rate_limited r = Inr (status_only 429)"

definition net_server_error :: network where
  "net_server_error r = Inr (status_only 500)"

text \<open>Status 200 with a JSON object that has no key \<open>choices\<close>.\<close>

definition net_no_choices :: network where
  "net_no_choices r =
     Inr \<lparr>status_code = 200,
          json_result = Inr (JObj [(str ''error'', JStr (str ''model unavailable''))])\<rparr>"

text \<open>Status 200 with the JSON body \<open>null\<close>, which parses to \<open>None\<close>.\<close>

definition net_null_body :: network where
  "net_null_body r = Inr \<lparr>status_code = 200, json_result = Inr JNull\<rparr>"

text \<open>The connection to the first model fails, every other model is rate limited.\<close>

definition net_refused_then_limited :: network where
  "net_refused_then_limited r =
     (if req_model r = FREE_MODELS ! 0 then Inl TransportError else Inr (status_only 429))"

definition store_accepts :: store where
  "store_accepts row = None"

definition logged_in :: app_state where
  "logged_in = \<lparr>supabase_client = True, user_email = Some (str ''ann@example.org''),
                 last_translation = None, db_rows = [], shown = []\<rparr>"

section \<open>The \<open>try\<close> block and the loop\<close>

lemma py_split_nonempty: "py_split sep s \<noteq> []"
  by (induction s) (simp_all split: list.splits)

lemma contacted_append: "contacted (xs @ ys) = contacted xs @ contacted ys"
  by (induction xs rule: contacted.induct) simp_all

lemma sleeps_append: "sleeps (xs @ ys) = sleeps xs @ sleeps ys"
  by (induction xs rule: sleeps.induct) simp_all

lemma on_status_200_fst:
  "fst (on_status_200 k model name resp s) = fst (on_status_200 k' model name' resp s')"
  by (simp add: on_status_200_def split: sum.splits json.splits)

lemma on_status_200_attempts: "attempts (snd (on_status_200 k model name resp s)) = attempts s"
  by (simp add: on_status_200_def say_if_many_def emit_def split: sum.splits json.splits)

lemma on_status_200_contacted:
  "contacted (trace (snd (on_status_200 k model name resp s))) = contacted (trace s)"
  by (simp add: on_status_200_def say_if_many_def emit_def contacted_append
      split: sum.splits json.splits)

lemma handle_response_fst:
  "fst (handle_response k model name resp s) = fst (handle_response k' model name' resp s')"
  using on_status_200_fst [of k model name resp s k' name' s']
  by (simp add: handle_response_def on_other_status_def)

lemma handle_response_attempts:
  "attempts (snd (handle_response k model name resp s)) = attempts s"
  by (simp add: handle_response_def on_other_status_def on_status_200_attempts
      say_if_many_def emit_def)

lemma handle_response_contacted:
  "contacted (trace (snd (handle_response k model name resp s))) = contacted (trace s)"
  by (simp add: handle_response_def on_other_status_def on_status_200_contacted
      say_if_many_def emit_def contacted_append)

lemma then_pause_fst: "fst (then_pause k i r) = fst r"
  by (cases r) (simp add: then_pause_def split: flow.splits)

lemma then_pause_attempts: "attempts (snd (then_pause k i r)) = attempts (snd r)"
  by (cases r) (simp add: then_pause_def pause_def emit_def split: flow.splits)

lemma then_pause_contacted:
  "contacted (trace (snd (then_pause k i r))) = contacted (trace (snd r))"
  by (cases r) (simp add: then_pause_def pause_def emit_def contacted_append split: flow.splits)

lemma try_block_fst: "fst (try_block k net prompt i model s) = attempt_flow net prompt model"
proof (cases "net (make_body model prompt)")
  case (Inl e)
  then show ?thesis by (simp add: try_block_def attempt_flow_def Let_def)
next
  case (Inr resp)
  have "fst (try_block k' net prompt i' model s') =
      fst (handle_response 0 model [] resp \<lparr>attempts = [], trace = []\<rparr>)" for k' i' s'
    by (simp add: try_block_def Let_def Inr then_pause_fst)
      (rule handle_response_fst)
  then show ?thesis by (simp add: attempt_flow_def)
qed

lemma try_block_attempts:
  "attempts (snd (try_block k net prompt i model s))
     = attempts s @ [attempt_line i (model_name_of model)]"
  by (cases "net (make_body model prompt)")
    (simp_all add: try_block_def Let_def then_pause_attempts handle_response_attempts
      emit_def say_if_many_def log_append_def)

lemma try_block_contacted:
  "contacted (trace (snd (try_block k net prompt i model s)))
     = contacted (trace s) @ [model]"
  by (cases "net (make_body model prompt)")
    (simp_all add: try_block_def Let_def then_pause_contacted handle_response_contacted
      emit_def say_if_many_def log_append_def contacted_append make_body_def)

lemma except_clauses_attempts:
  "attempts (except_clauses k i model e s) =
     attempts s @ [if e = Timeout then timeout_line i (model_name_of model)
                   else error_line i (model_name_of model)]"
  by (simp add: except_clauses_def Let_def log_append_def say_if_many_def emit_def)

lemma except_clauses_contacted:
  "contacted (trace (except_clauses k i model e s)) = contacted (trace s)"
  by (simp add: except_clauses_def Let_def log_append_def say_if_many_def emit_def
      contacted_append)


lemma choices_content_in:
  assumes "choices_content data = Inr v"
  shows "py_in (str ''choices'') data = Inr True"
proof (cases data)
  case (JObj items)
  with assms obtain c where "map_of items (str ''choices'') = Some c"
    by (auto simp: choices_content_def and_then_def split: option.splits)
  then have "str ''choices'' \<in> fst ` set items"
    by (rule map_of_SomeD [THEN rev_image_eqI]) simp
  with JObj show ?thesis by simp
qed (use assms in \<open>simp_all add: choices_content_def and_then_def\<close>)

lemma on_status_200_returned_iff:
  "fst (on_status_200 k model name resp s) = Returned t m \<longleftrightarrow>
     m = model \<and> (\<exists>data. json_result resp = Inr data \<and> generated_content data = Some t
        \<and> 10 < length (py_strip t))"
proof (cases "json_result resp")
  case (Inl e)
  then show ?thesis by (simp add: on_status_200_def)
next
  case (Inr data)
  show ?thesis
  proof (cases "choices_content data")
    case (Inl e)
    then show ?thesis
      by (simp add: on_status_200_def Inr generated_content_def split: sum.splits)
  next
    case r: (Inr v)
    from choices_content_in [OF r] show ?thesis
      by (cases v) (auto simp add: on_status_200_def Inr r generated_content_def)
  qed
qed

lemma attempt_flow_returned_iff:
  "attempt_flow net prompt model = Returned t m \<longleftrightarrow>
     m = model \<and> spec_accepted_text (net (make_body model prompt)) = Some t"
proof (cases "net (make_body model prompt)")
  case (Inl e)
  then show ?thesis
    by (simp add: attempt_flow_def try_block_def Let_def spec_accepted_text_def)
next
  case (Inr resp)
  show ?thesis
  proof (cases "status_code resp = 200")
    case True
    then show ?thesis
      using on_status_200_returned_iff [of 1 model "model_name_of model" resp _ t m]
      by (auto simp add: attempt_flow_def try_block_def Let_def Inr then_pause_fst
          handle_response_def spec_accepted_text_def split: sum.splits option.splits)
  next
    case False
    then show ?thesis
      by (simp add: attempt_flow_def try_block_def Let_def Inr then_pause_fst
          handle_response_def on_other_status_def spec_accepted_text_def)
  qed
qed

lemma attempt_flow_not_returned:
  "spec_accepted_text (net (make_body model prompt)) = None \<longleftrightarrow>
     (\<forall>t m. attempt_flow net prompt model \<noteq> Returned t m)"
  by (auto simp: attempt_flow_returned_iff)

lemma entries_of_failed:
  assumes "spec_accepted_text (net (make_body model prompt)) = None"
  shows "entries_of net prompt (i, model) =
     attempt_line i (model_name_of model) #
       (case attempt_flow net prompt model of
          Raised e \<Rightarrow> [if e = Timeout then timeout_line i (model_name_of model)
                       else error_line i (model_name_of model)]
        | _ \<Rightarrow> [])"
  by (simp add: entries_of_def split: flow.splits)

lemma loop_all_fail:
  assumes "\<forall>im \<in> set ims. spec_accepted_text (net (make_body (snd im) prompt)) = None"
  shows "fst (attempt_loop k net prompt ims s) = (None, None)
     \<and> attempts (snd (attempt_loop k net prompt ims s))
         = attempts s @ concat (map (entries_of net prompt) ims)
     \<and> contacted (trace (snd (attempt_loop k net prompt ims s)))
         = contacted (trace s) @ map snd ims"
  using assms
proof (induction ims arbitrary: s)
  case Nil
  then show ?case by simp
next
  case (Cons im ims)
  obtain i model where im: "im = (i, model)" by (cases im)
  obtain f s' where tb: "try_block k net prompt i model s = (f, s')"
    by (cases "try_block k net prompt i model s")
  have f: "f = attempt_flow net prompt model"
    using try_block_fst [of k net prompt i model s] tb by simp
  have a: "attempts s' = attempts s @ [attempt_line i (model_name_of model)]"
    using try_block_attempts [of k net prompt i model s] tb by simp
  have c: "contacted (trace s') = contacted (trace s) @ [model]"
    using try_block_contacted [of k net prompt i model s] tb by simp
  have nr: "\<forall>t m. f \<noteq> Returned t m"
    using Cons.prems im f by (simp add: attempt_flow_not_returned)
  have rest: "\<forall>im \<in> set ims. spec_accepted_text (net (make_body (snd im) prompt)) = None"
    using Cons.prems by simp
  show ?case
  proof (cases f)
    case (Raised e)
    then show ?thesis
      using Cons.IH [OF rest, of "except_clauses k i model e s'"] f
      by (simp add: im tb a c except_clauses_attempts except_clauses_contacted entries_of_def)
  next
    case FellThrough
    then show ?thesis
      using Cons.IH [OF rest, of s'] f
      by (simp add: im tb a c entries_of_def)
  next
    case (Returned t m)
    with nr show ?thesis by simp
  qed
qed

lemma loop_first_accept:
  assumes "\<forall>im \<in> set pre. spec_accepted_text (net (make_body (snd im) prompt)) = None"
    and "spec_accepted_text (net (make_body model prompt)) = Some t"
  shows "fst (attempt_loop k net prompt (pre @ (i, model) # post) s) = (Some t, Some model)
     \<and> attempts (snd (attempt_loop k net prompt (pre @ (i, model) # post) s))
         = attempts s @ concat (map (entries_of net prompt) pre)
             @ [attempt_line i (model_name_of model)]
     \<and> contacted (trace (snd (attempt_loop k net prompt (pre @ (i, model) # post) s)))
         = contacted (trace s) @ map snd pre @ [model]"
  using assms(1)
proof (induction pre arbitrary: s)
  case Nil
  obtain f s' where tb: "try_block k net prompt i model s = (f, s')"
    by (cases "try_block k net prompt i model s")
  have f: "f = Returned t model"
    using try_block_fst [of k net prompt i model s] tb assms(2)
    by (simp add: attempt_flow_returned_iff)
  show ?case
    using try_block_attempts [of k net prompt i model s]
      try_block_contacted [of k net prompt i model s]
    by (simp add: tb f)
next
  case (Cons im pre)
  obtain j mj where im: "im = (j, mj)" by (cases im)
  obtain f s' where tb: "try_block k net prompt j mj s = (f, s')"
    by (cases "try_block k net prompt j mj s")
  have f: "f = attempt_flow net prompt mj"
    using try_block_fst [of k net prompt j mj s] tb by simp
  have a: "attempts s' = attempts s @ [attempt_line j (model_name_of mj)]"
    using try_block_attempts [of k net prompt j mj s] tb by simp
  have c: "contacted (trace s') = contacted (trace s) @ [mj]"
    using try_block_contacted [of k net prompt j mj s] tb by simp
  have nr: "\<forall>t m. f \<noteq> Returned t m"
    using Cons.prems im f by (simp add: attempt_flow_not_returned)
  have rest: "\<forall>im \<in> set pre. spec_accepted_text (net (make_body (snd im) prompt)) = None"
    using Cons.prems by simp
  show ?case
  proof (cases f)
    case (Raised e)
    then show ?thesis
      using Cons.IH [OF rest, of "except_clauses k j mj e s'"] f
      by (simp add: im tb a c except_clauses_attempts except_clauses_contacted entries_of_def)
  next
    case FellThrough
    then show ?thesis
      using Cons.IH [OF rest, of s'] f
      by (simp add: im tb a c entries_of_def)
  next
    case (Returned t m)
    with nr show ?thesis by simp
  qed
qed


lemma run_all_fail:
  assumes "\<forall>j < length (models_tried k). spec_accepted_text (reply_of net inp cul k j) = None"
  shows "smart_translate_humor net inp cul k
           = (None, None, concat (map (entries_of net (make_prompt inp cul))
                                   (enumerate 0 (models_tried k))))"
    and "contacted (effects_of_call net inp cul k) = models_tried k"
proof -
  let ?ims = "enumerate 0 (models_tried k)"
  obtain r s where run: "run_smart_translate_humor net inp cul k = (r, s)"
    by (cases "run_smart_translate_humor net inp cul k")
  then have loop: "attempt_loop k net (make_prompt inp cul) ?ims
      \<lparr>attempts = [], trace = []\<rparr> = (r, s)"
    by (simp add: run_smart_translate_humor_def models_tried_def)
  have "\<forall>im \<in> set ?ims.
      spec_accepted_text (net (make_body (snd im) (make_prompt inp cul))) = None"
    using assms by (auto simp: in_set_enumerate_eq reply_of_def)
  from loop_all_fail [OF this, of k "\<lparr>attempts = [], trace = []\<rparr>"]
  have L: "r = (None, None)"
    "attempts s = concat (map (entries_of net (make_prompt inp cul)) ?ims)"
    "contacted (trace s) = models_tried k"
    by (simp_all add: loop)
  show "smart_translate_humor net inp cul k
           = (None, None, concat (map (entries_of net (make_prompt inp cul)) ?ims))"
    using L by (simp add: smart_translate_humor_def run)
  show "contacted (effects_of_call net inp cul k) = models_tried k"
    using L by (simp add: effects_of_call_def run)
qed

lemma run_first_accept:
  assumes i: "i < length (models_tried k)"
    and acc: "spec_accepted_text (reply_of net inp cul k i) = Some t"
    and before: "\<forall>j < i. spec_accepted_text (reply_of net inp cul k j) = None"
  shows "smart_translate_humor net inp cul k
           = (Some t, Some (models_tried k ! i),
              concat (map (entries_of net (make_prompt inp cul))
                        (enumerate 0 (take i (models_tried k))))
                @ [attempt_line i (model_name_of (models_tried k ! i))])"
    and "contacted (effects_of_call net inp cul k) = take (Suc i) (models_tried k)"
proof -
  let ?ms = "models_tried k"
  let ?ims = "enumerate 0 ?ms"
  let ?pre = "enumerate 0 (take i ?ms)"
  have pre: "take i ?ims = ?pre"
    using i by (simp add: enumerate_eq_zip take_zip min_def)
  have split: "?ims = ?pre @ (i, ?ms ! i) # drop (Suc i) ?ims"
    using id_take_nth_drop [of i ?ims] i by (simp add: pre nth_enumerate_eq)
  obtain r s where run: "run_smart_translate_humor net inp cul k = (r, s)"
    by (cases "run_smart_translate_humor net inp cul k")
  then have "attempt_loop k net (make_prompt inp cul) ?ims
      \<lparr>attempts = [], trace = []\<rparr> = (r, s)"
    by (simp add: run_smart_translate_humor_def models_tried_def)
  with split have loop: "attempt_loop k net (make_prompt inp cul)
      (?pre @ (i, ?ms ! i) # drop (Suc i) ?ims) \<lparr>attempts = [], trace = []\<rparr> = (r, s)"
    by simp
  have fails: "\<forall>im \<in> set ?pre.
      spec_accepted_text (net (make_body (snd im) (make_prompt inp cul))) = None"
    using before i by (auto simp: in_set_enumerate_eq reply_of_def)
  have acc': "spec_accepted_text (net (make_body (?ms ! i) (make_prompt inp cul))) = Some t"
    using acc by (simp add: reply_of_def)
  from loop_first_accept [OF fails acc', of k i "drop (Suc i) ?ims"
      "\<lparr>attempts = [], trace = []\<rparr>"]
  have L: "r = (Some t, Some (?ms ! i))"
    "attempts s = concat (map (entries_of net (make_prompt inp cul)) ?pre)
                @ [attempt_line i (model_name_of (?ms ! i))]"
    "contacted (trace s) = take i ?ms @ [?ms ! i]"
    by (simp_all add: loop)
  show "smart_translate_humor net inp cul k
           = (Some t, Some (?ms ! i),
              concat (map (entries_of net (make_prompt inp cul)) ?pre)
                @ [attempt_line i (model_name_of (?ms ! i))])"
    using L by (simp add: smart_translate_humor_def run)
  show "contacted (effects_of_call net inp cul k) = take (Suc i) ?ms"
    using L i by (simp add: effects_of_call_def run take_Suc_conv_app_nth)
qed

lemma first_accepting:
  fixes n :: nat
  assumes "\<exists>j < n. f j \<noteq> (None :: pystr option)"
  obtains i t where "i < n" and "f i = Some t" and "\<forall>j < i. f j = None"
proof -
  define i where "i = (LEAST j. j < n \<and> f j \<noteq> None)"
  from assms have ex: "\<exists>j. j < n \<and> f j \<noteq> None" by blast
  have 1: "i < n \<and> f i \<noteq> None"
    unfolding i_def using ex by (rule LeastI_ex)
  have 2: "\<forall>j < i. f j = None"
  proof (intro allI impI)
    fix j assume "j < i"
    then have "\<not> (j < n \<and> f j \<noteq> None)"
      unfolding i_def by (rule not_less_Least)
    moreover from \<open>j < i\<close> 1 have "j < n" by simp
    ultimately show "f j = None" by simp
  qed
  from 1 obtain t where "f i = Some t" by auto
  with 1 2 show ?thesis using that by blast
qed


lemma run_cases:
  obtains (fail)
      "\<forall>j < length (models_tried k). spec_accepted_text (reply_of net inp cul k j) = None"
      "smart_translate_humor net inp cul k
         = (None, None, concat (map (entries_of net (make_prompt inp cul))
                                 (enumerate 0 (models_tried k))))"
      "contacted (effects_of_call net inp cul k) = models_tried k"
  | (accept) i t where
      "i < length (models_tried k)"
      "spec_accepted_text (reply_of net inp cul k i) = Some t"
      "\<forall>j < i. spec_accepted_text (reply_of net inp cul k j) = None"
      "smart_translate_humor net inp cul k
         = (Some t, Some (models_tried k ! i),
            concat (map (entries_of net (make_prompt inp cul))
                      (enumerate 0 (take i (models_tried k))))
              @ [attempt_line i (model_name_of (models_tried k ! i))])"
      "contacted (effects_of_call net inp cul k) = take (Suc i) (models_tried k)"
proof (cases "\<exists>j < length (models_tried k). spec_accepted_text (reply_of net inp cul k j) \<noteq> None")
  case True
  then obtain i t where "i < length (models_tried k)"
      "spec_accepted_text (reply_of net inp cul k i) = Some t"
      "\<forall>j < i. spec_accepted_text (reply_of net inp cul k j) = None"
    by (rule first_accepting)
  then show ?thesis
    using run_first_accept [of i k net inp cul t] accept by blast
next
  case False
  then have "\<forall>j < length (models_tried k). spec_accepted_text (reply_of net inp cul k j) = None"
    by simp
  then show ?thesis
    using run_all_fail [of k net inp cul] fail by blast
qed

lemma spec_accepted_text_long:
  "spec_accepted_text reply = Some t \<Longrightarrow> 10 < length (py_strip t)"
  by (auto simp: spec_accepted_text_def split: sum.splits option.splits if_splits)

section \<open>Evaluating sample runs\<close>

lemmas run_defs = smart_translate_humor_def run_smart_translate_humor_def effects_of_call_def
  try_block_def then_pause_def handle_response_def on_status_200_def on_other_status_def
  pause_def except_clauses_def emit_def log_append_def say_if_many_def Let_def
  py_slice_to_def make_body_def enumerate_eq_zip models_tried_def reply_of_def
  spec_accepted_text_def generated_content_def choices_content_def and_then_def
  attempt_flow_def entries_of_def raised_def

lemmas line_defs = attempt_line_def timeout_line_def error_line_def model_name_of_def
  str_def str_of_nat.simps

lemmas sample_defs = FREE_MODELS_def chat_completion_def status_only_def chicken_joke_def
  py_strip_def py_isspace_def net_second_accepts_def net_always_timeout_def
  net_timeout_then_ok_def net_rate_limited_def net_server_error_def net_no_choices_def
  net_refused_then_limited_def net_null_body_def

section \<open>Properties of the sequencer\<close>

text \<open>
  C1. An attempt is accepted exactly when the status is 200, the body parses and holds
  generated content, and the content is longer than 10 characters after trimming. The call
  returns at the first such attempt \<open>i\<close>, no earlier attempt being acceptable, with the
  content as received, the identifier of model \<open>i\<close>, and the log written so far, whose
  last line is the line of attempt \<open>i\<close>; no model after \<open>i\<close> is contacted; and a text
  of 10 characters or fewer after trimming is never returned.
\<close>

theorem accept_rule:
  "(smart_translate_humor net inp cul k = (Some t, Some m, log) \<longleftrightarrow>
      (\<exists>i < length (models_tried k).
          spec_accepted_text (reply_of net inp cul k i) = Some t
        \<and> (\<forall>j < i. spec_accepted_text (reply_of net inp cul k j) = None)
        \<and> m = models_tried k ! i
        \<and> log = concat (map (entries_of net (make_prompt inp cul))
                          (enumerate 0 (take i (models_tried k))))
                  @ [attempt_line i (model_name_of m)]))
   \<and> (smart_translate_humor net inp cul k = (Some t, Some m, log) \<longrightarrow>
        (\<exists>i < length (models_tried k). m = models_tried k ! i
           \<and> contacted (effects_of_call net inp cul k) = take (Suc i) (models_tried k)))
   \<and> (fst (smart_translate_humor net inp cul k) = Some t \<longrightarrow> 10 < length (py_strip t))"
proof (intro conjI iffI impI)
  assume res: "smart_translate_humor net inp cul k = (Some t, Some m, log)"
  show "\<exists>i < length (models_tried k).
          spec_accepted_text (reply_of net inp cul k i) = Some t
        \<and> (\<forall>j < i. spec_accepted_text (reply_of net inp cul k j) = None)
        \<and> m = models_tried k ! i
        \<and> log = concat (map (entries_of net (make_prompt inp cul))
                          (enumerate 0 (take i (models_tried k))))
                  @ [attempt_line i (model_name_of m)]"
  proof (cases rule: run_cases [of k net inp cul])
    case fail
    with res show ?thesis by simp
  next
    case (accept i t')
    with res show ?thesis by auto
  qed
next
  assume "\<exists>i < length (models_tried k).
          spec_accepted_text (reply_of net inp cul k i) = Some t
        \<and> (\<forall>j < i. spec_accepted_text (reply_of net inp cul k j) = None)
        \<and> m = models_tried k ! i
        \<and> log = concat (map (entries_of net (make_prompt inp cul))
                          (enumerate 0 (take i (models_tried k))))
                  @ [attempt_line i (model_name_of m)]"
  then show "smart_translate_humor net inp cul k = (Some t, Some m, log)"
    using run_first_accept(1) [of _ k net inp cul t] by auto
next
  assume res: "smart_translate_humor net inp cul k = (Some t, Some m, log)"
  show "\<exists>i < length (models_tried k). m = models_tried k ! i
           \<and> contacted (effects_of_call net inp cul k) = take (Suc i) (models_tried k)"
  proof (cases rule: run_cases [of k net inp cul])
    case fail
    with res show ?thesis by simp
  next
    case (accept i t')
    with res show ?thesis by auto
  qed
next
  assume res: "fst (smart_translate_humor net inp cul k) = Some t"
  show "10 < length (py_strip t)"
  proof (cases rule: run_cases [of k net inp cul])
    case fail
    with res show ?thesis by simp
  next
    case (accept i t')
    with res have "t' = t" by simp
    with accept(2) show ?thesis by (simp add: spec_accepted_text_long)
  qed
qed

theorem accept_rule_witness:
  "smart_translate_humor net_second_accepts (str ''Knock knock'') (str ''German'') 3
     = (Some chicken_joke, Some (str ''meta-llama/llama-3-8b-instruct:free''),
        [str ''Attempt 1: mistral-small-3.2-24b-instruct:free'',
         str ''Attempt 2: llama-3-8b-instruct:free''])"
proof -
  have i: "1 < length (models_tried 3)" by (simp add: run_defs line_defs sample_defs)
  have a: "spec_accepted_text (reply_of net_second_accepts (str ''Knock knock'') (str ''German'') 3 1)
      = Some chicken_joke" by (simp add: run_defs line_defs sample_defs)
  have b0: "spec_accepted_text (reply_of net_second_accepts (str ''Knock knock'') (str ''German'') 3 0)
      = None" by (simp add: run_defs line_defs sample_defs)
  then have b: "\<forall>j < 1. spec_accepted_text
      (reply_of net_second_accepts (str ''Knock knock'') (str ''German'') 3 j) = None"
    by simp
  have m: "str ''meta-llama/llama-3-8b-instruct:free'' = models_tried 3 ! 1" by (simp add: run_defs line_defs sample_defs)
  have l: "[str ''Attempt 1: mistral-small-3.2-24b-instruct:free'',
         str ''Attempt 2: llama-3-8b-instruct:free'']
     = concat (map (entries_of net_second_accepts (make_prompt (str ''Knock knock'') (str ''German'')))
                          (enumerate 0 (take 1 (models_tried 3))))
                  @ [attempt_line 1 (model_name_of (str ''meta-llama/llama-3-8b-instruct:free''))]"
    by (simp add: run_defs line_defs sample_defs)
  from i a b m l show ?thesis
    using accept_rule [of net_second_accepts "str ''Knock knock''" "str ''German''" 3
        chicken_joke "str ''meta-llama/llama-3-8b-instruct:free''"
        "[str ''Attempt 1: mistral-small-3.2-24b-instruct:free'',
         str ''Attempt 2: llama-3-8b-instruct:free'']"]
    by blast
qed

lemma distinct_FREE_MODELS: "distinct FREE_MODELS"
  by (simp add: run_defs line_defs sample_defs)

lemma length_FREE_MODELS: "length FREE_MODELS = 8"
  by (simp add: FREE_MODELS_def)

lemma models_tried_take: "\<exists>n. models_tried k = take n FREE_MODELS"
  by (auto simp: models_tried_def py_slice_to_def)

lemma distinct_models_tried: "distinct (models_tried k)"
  by (simp add: models_tried_def py_slice_to_def distinct_FREE_MODELS)

lemma length_models_tried_le: "0 \<le> k \<Longrightarrow> int (length (models_tried k)) \<le> k"
  by (simp add: models_tried_def py_slice_to_def)

lemma length_models_tried:
  "0 \<le> k \<Longrightarrow> k \<le> int (length FREE_MODELS) \<Longrightarrow> length (models_tried k) = nat k"
  by (simp add: models_tried_def py_slice_to_def)

lemma contacted_prefix:
  "\<exists>n. contacted (effects_of_call net inp cul k) = take n (models_tried k)"
proof (cases rule: run_cases [of k net inp cul])
  case fail
  then have "contacted (effects_of_call net inp cul k)
      = take (length (models_tried k)) (models_tried k)" by simp
  then show ?thesis by blast
next
  case (accept i t)
  then show ?thesis by blast
qed

text \<open>
  C5. With an attempt budget \<open>k\<close> (not negative: the contract takes it between 1 and the
  length of the list), one call contacts at most \<open>k\<close> models, and it never contacts a
  model twice.
\<close>

theorem contacts_bounded:
  "distinct (contacted (effects_of_call net inp cul k))
   \<and> (0 \<le> k \<longrightarrow> int (length (contacted (effects_of_call net inp cul k))) \<le> k)"
proof -
  obtain n where n: "contacted (effects_of_call net inp cul k) = take n (models_tried k)"
    using contacted_prefix by blast
  have "distinct (take n (models_tried k))"
    using distinct_models_tried by (rule distinct_take)
  moreover have "int (length (take n (models_tried k))) \<le> k" if "0 \<le> k"
    using length_models_tried_le [OF that] by simp
  ultimately show ?thesis by (simp add: n)
qed

theorem contacts_bounded_witness:
  "contacted (effects_of_call net_rate_limited (str ''Knock knock'') (str ''German'') 2)
     = [str ''mistralai/mistral-small-3.2-24b-instruct:free'',
        str ''meta-llama/llama-3-8b-instruct:free'']
   \<and> distinct (contacted (effects_of_call net_rate_limited (str ''Knock knock'') (str ''German'') 2))
   \<and> int (length (contacted (effects_of_call net_rate_limited (str ''Knock knock'') (str ''German'') 2))) \<le> 2"
proof -
  have "contacted (effects_of_call net_rate_limited (str ''Knock knock'') (str ''German'') 2)
     = [str ''mistralai/mistral-small-3.2-24b-instruct:free'',
        str ''meta-llama/llama-3-8b-instruct:free'']"
    by (simp add: run_defs line_defs sample_defs)
  then show ?thesis
    using contacts_bounded [of net_rate_limited "str ''Knock knock''" "str ''German''" 2]
    by simp
qed



lemma length_entries:
  "length (concat (map (entries_of net prompt) ims))
     = length ims + length (filter (\<lambda>m. raised (attempt_flow net prompt m)) (map snd ims))"
  by (induction ims) (auto simp: entries_of_def raised_def split: flow.splits)

text \<open>
  C2, as amended. With a budget \<open>k\<close> between 0 and the length of the list, if none of the
  \<open>k\<close> attempts is accepted, the call returns neither text nor model, and the log holds,
  in priority order, the line of each of the \<open>k\<close> models, followed directly by a second
  line for that model when its attempt timed out or raised another exception. The log has
  \<open>k\<close> lines plus one for each attempt that raised: exactly \<open>k\<close> when none did.
\<close>

theorem exhausted_log:
  assumes "0 \<le> k" and "k \<le> int (length FREE_MODELS)"
    and "\<forall>j < nat k. spec_accepted_text (reply_of net inp cul k j) = None"
  shows "smart_translate_humor net inp cul k
           = (None, None, concat (map (entries_of net (make_prompt inp cul))
                                   (enumerate 0 (take (nat k) FREE_MODELS))))
     \<and> length (snd (snd (smart_translate_humor net inp cul k)))
           = nat k + length (filter (\<lambda>m. raised (attempt_flow net (make_prompt inp cul) m))
                              (take (nat k) FREE_MODELS))
     \<and> ((\<forall>m \<in> set (take (nat k) FREE_MODELS). \<not> raised (attempt_flow net (make_prompt inp cul) m))
          \<longrightarrow> length (snd (snd (smart_translate_humor net inp cul k))) = nat k)"
proof -
  have ms: "models_tried k = take (nat k) FREE_MODELS"
    using assms(1) by (simp add: models_tried_def py_slice_to_def)
  have len: "length (models_tried k) = nat k"
    using assms(1,2) by (rule length_models_tried)
  have "\<forall>j < length (models_tried k). spec_accepted_text (reply_of net inp cul k j) = None"
    using assms(3) len by simp
  from run_all_fail(1) [OF this]
  have res: "smart_translate_humor net inp cul k
           = (None, None, concat (map (entries_of net (make_prompt inp cul))
                                   (enumerate 0 (take (nat k) FREE_MODELS))))"
    by (simp add: ms)
  have n: "length (snd (snd (smart_translate_humor net inp cul k)))
           = nat k + length (filter (\<lambda>m. raised (attempt_flow net (make_prompt inp cul) m))
                              (take (nat k) FREE_MODELS))"
    using len by (simp add: res length_entries ms [symmetric])
  have "length (snd (snd (smart_translate_humor net inp cul k))) = nat k"
    if "\<forall>m \<in> set (take (nat k) FREE_MODELS). \<not> raised (attempt_flow net (make_prompt inp cul) m)"
  proof -
    from that have "filter (\<lambda>m. raised (attempt_flow net (make_prompt inp cul) m))
        (take (nat k) FREE_MODELS) = []"
      by (simp add: filter_empty_conv)
    with n show ?thesis by simp
  qed
  with res n show ?thesis by blast
qed

theorem exhausted_log_witness:
  "smart_translate_humor net_refused_then_limited (str ''Knock knock'') (str ''German'') 2
     = (None, None,
        [str ''Attempt 1: mistral-small-3.2-24b-instruct:free'',
         str ''Attempt 1: mistral-small-3.2-24b-instruct:free - Error'',
         str ''Attempt 2: llama-3-8b-instruct:free''])"
proof -
  have h1: "(0::int) \<le> 2" by simp
  have h2: "2 \<le> int (length FREE_MODELS)" by (simp add: FREE_MODELS_def)
  have a0: "spec_accepted_text
      (reply_of net_refused_then_limited (str ''Knock knock'') (str ''German'') 2 0) = None"
    by (simp add: run_defs line_defs sample_defs)
  have a1: "spec_accepted_text
      (reply_of net_refused_then_limited (str ''Knock knock'') (str ''German'') 2 1) = None"
    by (simp add: run_defs line_defs sample_defs)
  have h3: "\<forall>j < nat 2. spec_accepted_text
      (reply_of net_refused_then_limited (str ''Knock knock'') (str ''German'') 2 j) = None"
    using a0 a1 by (auto simp: less_Suc_eq numeral_2_eq_2)
  have l: "concat (map (entries_of net_refused_then_limited
                          (make_prompt (str ''Knock knock'') (str ''German'')))
                     (enumerate 0 (take (nat 2) FREE_MODELS)))
     = [str ''Attempt 1: mistral-small-3.2-24b-instruct:free'',
         str ''Attempt 1: mistral-small-3.2-24b-instruct:free - Error'',
         str ''Attempt 2: llama-3-8b-instruct:free'']"
    by (simp add: run_defs line_defs sample_defs)
  from exhausted_log [OF h1 h2 h3] show ?thesis
    by (simp only: l)
qed

theorem exhausted_log_counterexample:
  "spec_accepted_text (reply_of net_always_timeout (str ''Knock knock'') (str ''German'') 1 0) = None
   \<and> smart_translate_humor net_always_timeout (str ''Knock knock'') (str ''German'') 1
       = (None, None,
          [str ''Attempt 1: mistral-small-3.2-24b-instruct:free'',
           str ''Attempt 1: mistral-small-3.2-24b-instruct:free - Timeout''])
   \<and> length (snd (snd (smart_translate_humor net_always_timeout (str ''Knock knock'')
        (str ''German'') 1))) \<noteq> 1"
  by (simp add: run_defs line_defs sample_defs)

text \<open>
  C3, as amended. Whatever the attempts end in, the returned log holds, for each model
  contacted and in contact order, the line of that attempt, followed directly by one
  more line for the same attempt exactly when it timed out or raised another exception;
  the models contacted are an initial part of the priority list.
\<close>

theorem log_follows_contacts:
  "snd (snd (smart_translate_humor net inp cul k))
     = concat (map (entries_of net (make_prompt inp cul))
                 (enumerate 0 (contacted (effects_of_call net inp cul k))))
   \<and> (\<exists>n. contacted (effects_of_call net inp cul k) = take n (models_tried k))"
proof (cases rule: run_cases [of k net inp cul])
  case fail
  then show ?thesis using contacted_prefix [of net inp cul k] by simp
next
  case (accept i t)
  have "attempt_flow net (make_prompt inp cul) (models_tried k ! i)
      = Returned t (models_tried k ! i)"
    using accept(2) by (simp add: attempt_flow_returned_iff reply_of_def)
  then have "entries_of net (make_prompt inp cul) (i, models_tried k ! i)
      = [attempt_line i (model_name_of (models_tried k ! i))]"
    by (simp add: entries_of_def)
  then show ?thesis
    using accept contacted_prefix [of net inp cul k]
    by (simp add: take_Suc_conv_app_nth enumerate_append_eq)
qed

theorem log_follows_contacts_witness:
  "snd (snd (smart_translate_humor net_second_accepts (str ''Knock knock'') (str ''German'') 3))
     = [str ''Attempt 1: mistral-small-3.2-24b-instruct:free'',
        str ''Attempt 2: llama-3-8b-instruct:free'']
   \<and> contacted (effects_of_call net_second_accepts (str ''Knock knock'') (str ''German'') 3)
     = [str ''mistralai/mistral-small-3.2-24b-instruct:free'',
        str ''meta-llama/llama-3-8b-instruct:free'']"
proof -
  have c: "contacted (effects_of_call net_second_accepts (str ''Knock knock'') (str ''German'') 3)
     = [str ''mistralai/mistral-small-3.2-24b-instruct:free'',
        str ''meta-llama/llama-3-8b-instruct:free'']"
    by (simp add: run_defs line_defs sample_defs)
  have l: "concat (map (entries_of net_second_accepts (make_prompt (str ''Knock knock'') (str ''German'')))
       (enumerate 0 [str ''mistralai/mistral-small-3.2-24b-instruct:free'',
        str ''meta-llama/llama-3-8b-instruct:free'']))
     = [str ''Attempt 1: mistral-small-3.2-24b-instruct:free'',
        str ''Attempt 2: llama-3-8b-instruct:free'']"
    by (simp add: run_defs line_defs sample_defs)
  from log_follows_contacts [of net_second_accepts "str ''Knock knock''" "str ''German''" 3]
  show ?thesis
    by (simp only: c l simp_thms)
qed

theorem log_follows_contacts_counterexample:
  "contacted (effects_of_call net_timeout_then_ok (str ''Knock knock'') (str ''German'') 2)
     = [str ''mistralai/mistral-small-3.2-24b-instruct:free'',
        str ''meta-llama/llama-3-8b-instruct:free'']
   \<and> snd (snd (smart_translate_humor net_timeout_then_ok (str ''Knock knock'') (str ''German'') 2))
     = [str ''Attempt 1: mistral-small-3.2-24b-instruct:free'',
        str ''Attempt 1: mistral-small-3.2-24b-instruct:free - Timeout'',
        str ''Attempt 2: llama-3-8b-instruct:free'']
   \<and> length (snd (snd (smart_translate_humor net_timeout_then_ok (str ''Knock knock'')
         (str ''German'') 2)))
     \<noteq> length (contacted (effects_of_call net_timeout_then_ok (str ''Knock knock'')
         (str ''German'') 2))"
  by (simp add: run_defs line_defs sample_defs)

text \<open>
  C10, as amended. When the reply has status 200 and its parsed body is one on which the
  test \<open>"choices" in data\<close> of line 144 is false (an object without the key
  \<open>choices\<close>, a list without that element, a string without that run), the pass through
  the \<open>try\<close> block neither returns nor raises: it writes the plain line of the attempt
  and nothing else to the log, shows no warning, pauses when the attempt is not the last
  permitted one, and the loop goes on to the next model. On a body that is \<open>null\<close>, a
  number or a boolean the test itself raises \<open>TypeError\<close>.
\<close>

theorem no_choices_passes_silently:
  assumes "net (make_body model prompt) = Inr resp"
    and "status_code resp = 200"
    and "json_result resp = Inr data"
    and "py_in (str ''choices'') data = Inr False"
  shows "try_block k net prompt i model s
           = (FellThrough,
              s\<lparr>attempts := attempts s @ [attempt_line i (model_name_of model)],
                trace := trace s
                  @ (if 1 < k then [Ui (Trying (model_name_of model))] else [])
                  @ [Post (make_body model prompt)]
                  @ (if int i < k - 1 then [Sleep 2] else [])\<rparr>)
     \<and> attempt_loop k net prompt ((i, model) # rest) s
           = attempt_loop k net prompt rest
               (s\<lparr>attempts := attempts s @ [attempt_line i (model_name_of model)],
                  trace := trace s
                    @ (if 1 < k then [Ui (Trying (model_name_of model))] else [])
                    @ [Post (make_body model prompt)]
                    @ (if int i < k - 1 then [Sleep 2] else [])\<rparr>)"
proof -
  have tb: "try_block k net prompt i model s
           = (FellThrough,
              s\<lparr>attempts := attempts s @ [attempt_line i (model_name_of model)],
                trace := trace s
                  @ (if 1 < k then [Ui (Trying (model_name_of model))] else [])
                  @ [Post (make_body model prompt)]
                  @ (if int i < k - 1 then [Sleep 2] else [])\<rparr>)"
    using assms
    by (simp add: try_block_def Let_def handle_response_def on_status_200_def then_pause_def
        pause_def emit_def say_if_many_def log_append_def)
  then show ?thesis by simp
qed

theorem no_choices_passes_silently_witness:
  "try_block 2 net_no_choices (make_prompt (str ''Knock knock'') (str ''German'')) 0
       (str ''google/gemma-7b-it:free'') \<lparr>attempts = [], trace = []\<rparr>
     = (FellThrough,
        \<lparr>attempts = [str ''Attempt 1: gemma-7b-it:free''],
         trace = [Ui (Trying (str ''gemma-7b-it:free'')),
                  Post (make_body (str ''google/gemma-7b-it:free'')
                          (make_prompt (str ''Knock knock'') (str ''German''))),
                  Sleep 2]\<rparr>)"
proof -
  have h1: "net_no_choices (make_body (str ''google/gemma-7b-it:free'')
                (make_prompt (str ''Knock knock'') (str ''German'')))
      = Inr \<lparr>status_code = 200,
          json_result = Inr (JObj [(str ''error'', JStr (str ''model unavailable''))])\<rparr>"
    by (simp add: net_no_choices_def)
  have h4: "py_in (str ''choices'') (JObj [(str ''error'', JStr (str ''model unavailable''))])
      = Inr False"
    by (simp add: str_def)
  have n: "attempt_line 0 (str ''gemma-7b-it:free'') = str ''Attempt 1: gemma-7b-it:free''"
    "model_name_of (str ''google/gemma-7b-it:free'') = str ''gemma-7b-it:free''"
    by (simp_all add: line_defs)
  have h2: "status_code \<lparr>status_code = 200,
          json_result = Inr (JObj [(str ''error'', JStr (str ''model unavailable''))])\<rparr> = 200"
    by simp
  have h3: "json_result \<lparr>status_code = 200,
          json_result = Inr (JObj [(str ''error'', JStr (str ''model unavailable''))])\<rparr>
      = Inr (JObj [(str ''error'', JStr (str ''model unavailable''))])"
    by simp
  from no_choices_passes_silently [where net = net_no_choices
      and model = "str ''google/gemma-7b-it:free''"
      and prompt = "make_prompt (str ''Knock knock'') (str ''German'')"
      and resp = "\<lparr>status_code = 200,
          json_result = Inr (JObj [(str ''error'', JStr (str ''model unavailable''))])\<rparr>"
      and data = "JObj [(str ''error'', JStr (str ''model unavailable''))]"
      and k = 2 and i = 0 and s = "\<lparr>attempts = [], trace = []\<rparr>" and rest = "[]",
      OF h1 h2 h3 h4]
  show ?thesis by (simp add: n)
qed

theorem no_choices_passes_silently_counterexample:
  "py_in (str ''choices'') JNull = Inl TypeError
   \<and> choices_content JNull = Inl TypeError
   \<and> attempt_flow net_null_body (make_prompt (str ''Knock knock'') (str ''German''))
         (str ''mistralai/mistral-small-3.2-24b-instruct:free'') = Raised TypeError
   \<and> smart_translate_humor net_null_body (str ''Knock knock'') (str ''German'') 2
     = (None, None,
        [str ''Attempt 1: mistral-small-3.2-24b-instruct:free'',
         str ''Attempt 1: mistral-small-3.2-24b-instruct:free - Error'',
         str ''Attempt 2: llama-3-8b-instruct:free'',
         str ''Attempt 2: llama-3-8b-instruct:free - Error''])
   \<and> sleeps (effects_of_call net_null_body (str ''Knock knock'') (str ''German'') 2) = []"
  by (simp add: run_defs line_defs sample_defs)

text \<open>
  What the log and the pauses depend on. An attempt that ends with an HTTP status other
  than 200, or with a content of at most 10 characters after trimming, leaves the plain
  line of the attempt in the log, whatever the status. The pause is taken exactly after a
  pass that falls through the \<open>if\<close> and is not the last permitted one; it is always 2.
\<close>

lemma untagged_entries:
  assumes "net (make_body model prompt) = Inr resp"
    and "status_code resp \<noteq> 200
       \<or> (\<exists>data t. json_result resp = Inr data \<and> choices_content data = Inr (JStr t)
              \<and> length (py_strip t) \<le> 10)"
  shows "entries_of net prompt (i, model) = [attempt_line i (model_name_of model)]"
proof -
  have "attempt_flow net prompt model = FellThrough"
    using assms choices_content_in
    by (auto simp add: attempt_flow_def try_block_def Let_def then_pause_def
        handle_response_def on_other_status_def on_status_200_def)
  then show ?thesis by (simp add: entries_of_def)
qed

lemma handle_response_sleeps:
  "sleeps (trace (snd (handle_response k model name resp s))) = sleeps (trace s)"
  by (simp add: handle_response_def on_other_status_def on_status_200_def say_if_many_def
      emit_def sleeps_append split: sum.splits json.splits)

lemma try_block_sleeps:
  "sleeps (trace (snd (try_block k net prompt i model s)))
     = sleeps (trace s)
         @ (if attempt_flow net prompt model = FellThrough \<and> int i < k - 1 then [2] else [])"
proof (cases "net (make_body model prompt)")
  case (Inl e)
  then have "attempt_flow net prompt model = Raised e"
    by (simp add: attempt_flow_def try_block_def Let_def)
  with Inl show ?thesis
    by (simp add: try_block_def Let_def emit_def say_if_many_def log_append_def sleeps_append)
next
  case (Inr resp)
  let ?s3 = "emit (Post (make_body model prompt))
      (say_if_many k (Trying (model_name_of model))
        (log_append (attempt_line i (model_name_of model)) s))"
  let ?r = "handle_response k model (model_name_of model) resp ?s3"
  have tb: "try_block k net prompt i model s = then_pause k i ?r"
    by (simp add: try_block_def Let_def Inr)
  have flow: "fst ?r = attempt_flow net prompt model"
    using try_block_fst [of k net prompt i model s] by (simp add: tb then_pause_fst)
  have s3: "sleeps (trace ?s3) = sleeps (trace s)"
    by (simp add: emit_def say_if_many_def log_append_def sleeps_append)
  have r: "sleeps (trace (snd ?r)) = sleeps (trace s)"
    by (simp add: handle_response_sleeps s3)
  show ?thesis
    using flow r
    by (cases "fst ?r")
      (simp_all add: tb then_pause_def pause_def emit_def sleeps_append)
qed

text \<open>
  C4, at a failing input. With a budget of one model and the reply HTTP 429, the returned
  log is the plain line of the attempt: it says neither that the model was rate limited nor
  anything else about the outcome, it is the same log as for HTTP 500, and nothing is
  shown on the screen. The \<open>except\<close> clauses do write the outcome of a timeout or of
  another exception to the log.
\<close>

theorem http_failure_untagged:
  "smart_translate_humor net_rate_limited (str ''Knock knock'') (str ''German'') 1
     = (None, None, [str ''Attempt 1: mistral-small-3.2-24b-instruct:free''])
   \<and> smart_translate_humor net_server_error (str ''Knock knock'') (str ''German'') 1
     = (None, None, [str ''Attempt 1: mistral-small-3.2-24b-instruct:free''])
   \<and> effects_of_call net_rate_limited (str ''Knock knock'') (str ''German'') 1
     = [Post (make_body (str ''mistralai/mistral-small-3.2-24b-instruct:free'')
               (make_prompt (str ''Knock knock'') (str ''German'')))]"
  by (simp add: run_defs line_defs sample_defs)

text \<open>
  C7, at a failing input. With a budget of two models, the first of which times out, the
  second model is contacted without any pause: an exception leaves the \<open>try\<close> block
  before the pause of lines 166 and 167. After an HTTP failure of the first model the
  pause of 2 is taken.
\<close>

theorem no_pause_after_timeout:
  "contacted (effects_of_call net_always_timeout (str ''Knock knock'') (str ''German'') 2)
     = [str ''mistralai/mistral-small-3.2-24b-instruct:free'',
        str ''meta-llama/llama-3-8b-instruct:free'']
   \<and> sleeps (effects_of_call net_always_timeout (str ''Knock knock'') (str ''German'') 2) = []
   \<and> sleeps (effects_of_call net_rate_limited (str ''Knock knock'') (str ''German'') 2) = [2]"
  by (simp add: run_defs line_defs sample_defs)

section \<open>Properties of the caller\<close>

lemma db_rows_display: "db_rows (display m w) = db_rows w"
  by (simp add: display_def)

lemma db_rows_history: "db_rows (fold (\<lambda>attempt. display (HistoryLine attempt)) log w) = db_rows w"
  by (induction log arbitrary: w) (simp_all add: db_rows_display)

lemma db_rows_show_failure: "db_rows (show_failure log w) = db_rows w"
  by (simp add: show_failure_def db_rows_display db_rows_history)

lemma db_rows_save:
  "db_rows (save_translation_to_db ins inp cul t m w) = db_rows w
   \<or> (\<exists>email. db_rows (save_translation_to_db ins inp cul t m w)
         = db_rows w @ [\<lparr>rec_user_email = email, original_text = inp,
                          rec_target_culture = cul, translated_text = t, model_used = m\<rparr>])"
  by (simp add: save_translation_to_db_def Let_def db_rows_display split: option.splits)

lemma db_rows_show_result:
  "db_rows (show_result ins inp cul save dbg t (Some m) w) = db_rows w
   \<or> (\<exists>email. db_rows (show_result ins inp cul save dbg t (Some m) w)
         = db_rows w @ [\<lparr>rec_user_email = email, original_text = inp,
                          rec_target_culture = cul, translated_text = t, model_used = m\<rparr>])"
proof -
  let ?w2 = "if dbg \<and> truthy m
             then display (ModelUsedInfo (model_name_of m))
                    (display (SpeakButton t) (display (AdaptedHumor t) w))
             else display (SpeakButton t) (display (AdaptedHumor t) w)"
  have w2: "db_rows ?w2 = db_rows w" by (simp add: db_rows_display)
  show ?thesis
    using db_rows_save [of ins inp cul t m ?w2]
    by (auto simp add: show_result_def Let_def db_rows_display w2 simp del: split_paired_Ex)
qed

lemma run_result:
  "run_smart_translate_humor net inp cul k = ((tt, mu), s) \<Longrightarrow>
     smart_translate_humor net inp cul k = (tt, mu, attempts s)"
  by (simp add: smart_translate_humor_def)

text \<open>
  C8. A row is inserted only when the sequencer returned a model identifier: the rows of
  the table are unchanged after a total failure, and a row that is inserted carries the
  identifier of the model of the attempt that was accepted (the first acceptable one) and
  the text that attempt produced.
\<close>

theorem record_only_on_accept:
  "(db_rows (on_translate_click net ins inp cul k save dbg w) = db_rows w
    \<or> (\<exists>i t email. i < length (models_tried k)
          \<and> spec_accepted_text (reply_of net inp cul k i) = Some t
          \<and> (\<forall>j < i. spec_accepted_text (reply_of net inp cul k j) = None)
          \<and> fst (snd (smart_translate_humor net inp cul k)) = Some (models_tried k ! i)
          \<and> db_rows (on_translate_click net ins inp cul k save dbg w)
              = db_rows w @ [\<lparr>rec_user_email = email, original_text = inp,
                               rec_target_culture = cul, translated_text = t,
                               model_used = models_tried k ! i\<rparr>]))
   \<and> (fst (snd (smart_translate_humor net inp cul k)) = None
        \<longrightarrow> db_rows (on_translate_click net ins inp cul k save dbg w) = db_rows w)"
proof (cases "\<not> truthy inp \<or> \<not> truthy cul")
  case True
  then show ?thesis
    by (simp add: on_translate_click_def db_rows_display)
next
  case False
  obtain tt mu s where run: "run_smart_translate_humor net inp cul k = ((tt, mu), s)"
    by (cases "run_smart_translate_humor net inp cul k") auto
  note res = run_result [OF run]
  show ?thesis
  proof (cases rule: run_cases [of k net inp cul])
    case fail
    with res have "tt = None" "mu = None" by simp_all
    then show ?thesis
      using False by (simp add: on_translate_click_def run res db_rows_show_failure)
  next
    case (accept i t)
    with res have tt: "tt = Some t" and mu: "mu = Some (models_tried k ! i)" by simp_all
    let ?w1 = "w\<lparr>shown := shown w @ trace s\<rparr>"
    have click: "on_translate_click net ins inp cul k save dbg w
        = (if truthy t then show_result ins inp cul save dbg t (Some (models_tried k ! i)) ?w1
           else show_failure (attempts s) ?w1)"
      using False by (simp add: on_translate_click_def run tt mu)
    have "db_rows (on_translate_click net ins inp cul k save dbg w) = db_rows w
       \<or> (\<exists>email. db_rows (on_translate_click net ins inp cul k save dbg w)
             = db_rows w @ [\<lparr>rec_user_email = email, original_text = inp,
                              rec_target_culture = cul, translated_text = t,
                              model_used = models_tried k ! i\<rparr>])"
      using db_rows_show_result [of ins inp cul save dbg t "models_tried k ! i" ?w1]
      by (cases "truthy t") (simp_all add: click db_rows_show_failure)
    moreover have "fst (snd (smart_translate_humor net inp cul k)) = Some (models_tried k ! i)"
      using res mu by simp
    ultimately show ?thesis
      using accept(1,2,3) by auto
  qed
qed

theorem record_only_on_accept_witness:
  "db_rows (on_translate_click net_second_accepts store_accepts (str ''Knock knock'')
              (str ''German'') 3 True False logged_in)
     = [\<lparr>rec_user_email = str ''ann@example.org'', original_text = str ''Knock knock'',
         rec_target_culture = str ''German'', translated_text = chicken_joke,
         model_used = str ''meta-llama/llama-3-8b-instruct:free''\<rparr>]
   \<and> fst (snd (smart_translate_humor net_second_accepts (str ''Knock knock'') (str ''German'') 3))
     = Some (str ''meta-llama/llama-3-8b-instruct:free'')
   \<and> db_rows (on_translate_click net_rate_limited store_accepts (str ''Knock knock'')
              (str ''German'') 3 True False logged_in) = []"
proof -
  have a: "db_rows (on_translate_click net_second_accepts store_accepts (str ''Knock knock'')
              (str ''German'') 3 True False logged_in)
     = [\<lparr>rec_user_email = str ''ann@example.org'', original_text = str ''Knock knock'',
         rec_target_culture = str ''German'', translated_text = chicken_joke,
         model_used = str ''meta-llama/llama-3-8b-instruct:free''\<rparr>]"
    by (simp add: on_translate_click_def show_result_def save_translation_to_db_def
        display_def truthy_def store_accepts_def logged_in_def run_defs line_defs sample_defs)
  have b: "fst (snd (smart_translate_humor net_second_accepts (str ''Knock knock'')
      (str ''German'') 3)) = Some (str ''meta-llama/llama-3-8b-instruct:free'')"
    by (simp add: run_defs line_defs sample_defs)
  have c: "fst (snd (smart_translate_humor net_rate_limited (str ''Knock knock'')
      (str ''German'') 3)) = None"
    by (simp add: run_defs line_defs sample_defs)
  have d: "db_rows logged_in = []" by (simp add: logged_in_def)
  from record_only_on_accept [of net_rate_limited store_accepts "str ''Knock knock''"
      "str ''German''" 3 True False logged_in] c d
  have "db_rows (on_translate_click net_rate_limited store_accepts (str ''Knock knock'')
              (str ''German'') 3 True False logged_in) = []"
    by simp
  with a b show ?thesis by simp
qed

text \<open>
  C6, as amended. When the source text or the target culture is the empty string (as
  entered: the handler does not trim), the handler only shows the warning to fill in both
  fields: the sequencer is not called, no model is contacted, nothing is logged or saved.
\<close>

theorem empty_input_short_circuits:
  assumes "input_text = [] \<or> target_culture = []"
  shows "on_translate_click net ins input_text target_culture k save dbg w
           = w\<lparr>shown := shown w @ [Ui FillBothFields]\<rparr>
     \<and> contacted (shown (on_translate_click net ins input_text target_culture k save dbg w))
           = contacted (shown w)"
  using assms
  by (auto simp add: on_translate_click_def truthy_def display_def contacted_append)

theorem empty_input_short_circuits_witness:
  "on_translate_click net_second_accepts store_accepts [] (str ''German'') 3 True False logged_in
     = logged_in\<lparr>shown := [Ui FillBothFields]\<rparr>"
proof -
  have h: "([]::pystr) = [] \<or> str ''German'' = []" by simp
  from empty_input_short_circuits [OF h, of net_second_accepts store_accepts 3 True False
      logged_in]
  show ?thesis by (simp add: logged_in_def)
qed

theorem empty_input_short_circuits_counterexample:
  "py_strip (str '' '') = []
   \<and> contacted (shown (on_translate_click net_rate_limited store_accepts (str '' '')
        (str ''German'') 1 True False logged_in))
       = [str ''mistralai/mistral-small-3.2-24b-instruct:free'']"
  by (simp add: on_translate_click_def show_failure_def display_def truthy_def
      logged_in_def run_defs line_defs sample_defs)

end
